theory Spec2Isabelle
  imports Main "HOL-Library.AList" "HOL-Library.Sublist"
begin

section \<open>The parse tree of the HTML library\<close>

text \<open>
  \<^verbatim>\<open>app.py\<close> never looks at markup text: both sanitizers call
  \<^verbatim>\<open>BeautifulSoup(html, "html.parser")\<close>, mutate the tree it returns and
  serialize the tree with \<^verbatim>\<open>str(soup)\<close>. Parser and serializer belong to the
  library, so the sanitizers are embedded as functions on the tree, and the two library
  calls are parameters of the text-level wrappers further down.

  A tree node is a \<^verbatim>\<open>Tag\<close> (name, attribute dictionary, children) or one of the
  string classes of the library. The attribute dictionary is an association list in
  insertion order: \<^verbatim>\<open>tag[k] = v\<close> is \<open>AList.update\<close> (an existing key keeps
  its place, a new key goes to the end, as in a Python dict) and \<^verbatim>\<open>del tag[k]\<close> is
  \<open>AList.delete\<close>. The sanitizers read the values of \<^verbatim>\<open>href\<close>,
  \<^verbatim>\<open>src\<close>, \<^verbatim>\<open>alt\<close>, \<^verbatim>\<open>type\<close> and \<^verbatim>\<open>http-equiv\<close> only, which
  the parser always stores as strings.
\<close>

datatype string_class =
  NavigableString | Comment | CData | ProcessingInstruction | Declaration | Doctype

type_synonym attrs = "(string \<times> string) list"

datatype node =
    Tag (name: string) (attrs: attrs) (contents: "node list")
  | Str string_class string
where
  "name (Str k s) = []"
| "attrs (Str k s) = []"
| "contents (Str k s) = []"

type_synonym soup = "node list"

subsection \<open>Strings\<close>

definition startswith :: "string \<Rightarrow> string \<Rightarrow> bool" where
  "startswith s p = prefix p s"

text \<open>
  \<^verbatim>\<open>str.lower\<close>, on the ASCII letters. Its result is only ever compared with the
  ASCII literals \<^verbatim>\<open>on\<close>, \<^verbatim>\<open>refresh\<close>, \<^verbatim>\<open>submit\<close>, \<^verbatim>\<open>image\<close> and
  \<^verbatim>\<open>button\<close>, and no character outside ASCII lowers to a single letter of these.
\<close>

definition lower_char :: "char \<Rightarrow> char" where
  "lower_char c =
     (case map_of (zip ''ABCDEFGHIJKLMNOPQRSTUVWXYZ'' ''abcdefghijklmnopqrstuvwxyz'') c of
        None \<Rightarrow> c
      | Some d \<Rightarrow> d)"

definition lower :: "string \<Rightarrow> string" where
  "lower s = map lower_char s"

subsection \<open>Attribute access\<close>

definition has_attr :: "attrs \<Rightarrow> string \<Rightarrow> bool" where
  "has_attr a k = (map_of a k \<noteq> None)"

definition get :: "attrs \<Rightarrow> string \<Rightarrow> string \<Rightarrow> string" where
  \<comment> \<open>\<^verbatim>\<open>tag.get(k, default)\<close>\<close>
  "get a k d = (case map_of a k of None \<Rightarrow> d | Some v \<Rightarrow> v)"

subsection \<open>Searching and mutating the tree\<close>

text \<open>\<^verbatim>\<open>find_all()\<close>: every tag of a subtree, in document order, the root first.\<close>

fun tags :: "node \<Rightarrow> node list" where
  "tags (Tag n a cs) = Tag n a cs # concat (map tags cs)"
| "tags (Str k s) = []"

definition find_all :: "soup \<Rightarrow> node list" where
  "find_all soup = concat (map tags soup)"

text \<open>
  \<^verbatim>\<open>for tag in soup.find_all(P): tag.decompose()\<close>: every matching tag goes, with
  its subtree.
\<close>

fun decompose_tags :: "(string \<Rightarrow> attrs \<Rightarrow> bool) \<Rightarrow> node \<Rightarrow> node list" where
  "decompose_tags P (Tag n a cs) =
     (if P n a then [] else [Tag n a (concat (map (decompose_tags P) cs))])"
| "decompose_tags P (Str k s) = [Str k s]"

definition decompose_all :: "(string \<Rightarrow> attrs \<Rightarrow> bool) \<Rightarrow> soup \<Rightarrow> soup" where
  "decompose_all P soup = concat (map (decompose_tags P) soup)"

text \<open>
  \<^verbatim>\<open>for tag in soup.find_all(P): body\<close>, for a body that only writes the
  attributes of \<^verbatim>\<open>tag\<close> itself: \<open>f\<close> is the body, from the tag's name and
  attributes to its new attributes.
\<close>

fun update_tags :: "(string \<Rightarrow> attrs \<Rightarrow> bool) \<Rightarrow> (string \<Rightarrow> attrs \<Rightarrow> attrs) \<Rightarrow> node \<Rightarrow> node" where
  "update_tags P f (Tag n a cs) = Tag n (if P n a then f n a else a) (map (update_tags P f) cs)"
| "update_tags P f (Str k s) = Str k s"

definition for_each_tag :: "(string \<Rightarrow> attrs \<Rightarrow> bool) \<Rightarrow> (string \<Rightarrow> attrs \<Rightarrow> attrs) \<Rightarrow> soup \<Rightarrow> soup" where
  "for_each_tag P f soup = map (update_tags P f) soup"

text \<open>
  \<^verbatim>\<open>for s in soup.find_all(string=P): s.extract()\<close>: every matching string node
  is taken out of the tree.
\<close>

fun extract_strings :: "(node \<Rightarrow> bool) \<Rightarrow> node \<Rightarrow> node list" where
  "extract_strings P (Tag n a cs) = [Tag n a (concat (map (extract_strings P) cs))]"
| "extract_strings P (Str k s) = (if P (Str k s) then [] else [Str k s])"

text \<open>
  \<^verbatim>\<open>soup.find(n)\<close>, which attribute access such as \<^verbatim>\<open>soup.body\<close> stands for:
  the first tag of that name in document order.
\<close>

definition find :: "soup \<Rightarrow> string \<Rightarrow> node option" where
  "find soup n = List.find (\<lambda>t. name t = n) (find_all soup)"

text \<open>
  \<^verbatim>\<open>soup.find(n).insert(0, x)\<close>: \<open>x\<close> becomes the first child of the first tag
  named \<open>n\<close>; \<open>None\<close> when there is no such tag.
\<close>

fun insert_first :: "string \<Rightarrow> node \<Rightarrow> node \<Rightarrow> node option"
  and insert_first_list :: "string \<Rightarrow> node \<Rightarrow> node list \<Rightarrow> node list option" where
  "insert_first n x (Tag m a cs) =
     (if m = n then Some (Tag m a (x # cs))
      else map_option (Tag m a) (insert_first_list n x cs))"
| "insert_first n x (Str k s) = None"
| "insert_first_list n x [] = None"
| "insert_first_list n x (c # cs) =
     (case insert_first n x c of
        Some c' \<Rightarrow> Some (c' # cs)
      | None \<Rightarrow> map_option ((#) c) (insert_first_list n x cs))"

section \<open>The strict sanitizer\<close>

text \<open>
  \<^verbatim>\<open>sanitize_html_\<close> of \<^verbatim>\<open>app.py\<close> (a name may not end with an underscore
  here, hence \<open>sanitize_html_strict\<close>). Each definition below is one loop of the
  function, in the order of the source.
\<close>

definition named :: "string \<Rightarrow> string \<Rightarrow> attrs \<Rightarrow> bool" where
  \<comment> \<open>the filter of \<^verbatim>\<open>find_all(tag_name)\<close>\<close>
  "named n = (\<lambda>m a. m = n)"

definition remove_dangerous_tags :: "soup \<Rightarrow> soup" where
  "remove_dangerous_tags soup =
     foldl (\<lambda>s tag_name. decompose_all (named tag_name) s) soup
       [''script'', ''iframe'', ''object'', ''embed'', ''noscript'', ''base'']"

definition remove_links :: "soup \<Rightarrow> soup" where
  "remove_links soup = decompose_all (named ''link'') soup"

definition meta_decomposed :: "attrs \<Rightarrow> bool" where
  \<comment> \<open>both branches of the test on \<^verbatim>\<open>http-equiv\<close> call \<^verbatim>\<open>meta.decompose()\<close>\<close>
  "meta_decomposed a =
     (let http_equiv = get a ''http-equiv'' '''' in
      if http_equiv \<noteq> '''' \<and> lower http_equiv = ''refresh'' then True else True)"

definition remove_metas :: "soup \<Rightarrow> soup" where
  "remove_metas soup = decompose_all (\<lambda>n a. n = ''meta'' \<and> meta_decomposed a) soup"

definition strip_srcset :: "soup \<Rightarrow> soup" where
  "strip_srcset soup =
     for_each_tag (\<lambda>n a. has_attr a ''srcset'') (\<lambda>n a. AList.delete ''srcset'' a) soup"

definition strip_img_attrs :: "attrs \<Rightarrow> attrs" where
  "strip_img_attrs a =
     (let a1 = (if has_attr a ''src'' then AList.delete ''src'' a else a);
          a2 = (if has_attr a1 ''srcset'' then AList.delete ''srcset'' a1 else a1)
      in foldl (\<lambda>b attr. if startswith attr ''on'' then AList.delete attr b else b)
           a2 (map fst a2))"

definition strip_imgs :: "soup \<Rightarrow> soup" where
  "strip_imgs soup = for_each_tag (named ''img'') (\<lambda>n. strip_img_attrs) soup"

definition href_kept :: "string \<Rightarrow> bool" where
  "href_kept href =
     (startswith href ''#'' \<or> startswith href ''mailto:'' \<or> startswith href ''javascript:'')"

definition neutralize_href :: "attrs \<Rightarrow> attrs" where
  "neutralize_href a =
     (let href = get a ''href'' '''' in
      if href_kept href then a else AList.update ''href'' ''#'' a)"

definition neutralize_hrefs :: "soup \<Rightarrow> soup" where
  "neutralize_hrefs soup =
     for_each_tag (\<lambda>n a. has_attr a ''href'') (\<lambda>n. neutralize_href) soup"

definition strip_src :: "soup \<Rightarrow> soup" where
  "strip_src soup =
     for_each_tag (\<lambda>n a. has_attr a ''src'') (\<lambda>n a. AList.delete ''src'' a) soup"

definition strip_handler_attrs :: "attrs \<Rightarrow> attrs" where
  "strip_handler_attrs a =
     foldl (\<lambda>b k. if startswith (lower k) ''on'' then AList.delete k b else b) a (map fst a)"

definition strip_handlers :: "soup \<Rightarrow> soup" where
  "strip_handlers soup = for_each_tag (\<lambda>n a. True) (\<lambda>n. strip_handler_attrs) soup"

definition submit_types :: "string list" where
  \<comment> \<open>the tuple \<^verbatim>\<open>("submit", "image", "button")\<close> of the test on an input's type\<close>
  "submit_types = [''submit'', ''image'', ''button'']"

definition disable_control :: "string \<Rightarrow> attrs \<Rightarrow> attrs" where
  "disable_control n a =
     (let a1 = (if n = ''input'' \<and> lower (get a ''type'' '''') \<in> set submit_types
                then AList.update ''disabled'' ''disabled'' a else a)
      in if n = ''button'' then AList.update ''disabled'' ''disabled'' a1 else a1)"

definition disable_controls :: "node \<Rightarrow> node" where
  \<comment> \<open>the inner loop, over \<^verbatim>\<open>form.find_all(["input", "button"])\<close>\<close>
  "disable_controls = update_tags (\<lambda>n a. n \<in> set [''input'', ''button'']) disable_control"

text \<open>
  The loop over the forms writes \<^verbatim>\<open>action\<close> and \<^verbatim>\<open>method\<close> of each form and
  \<^verbatim>\<open>disabled\<close> of the controls below it. These writes touch different tags or set
  the same key to the same value, so their order does not matter, and the recursion
  may finish the forms nested in a form before the controls of the outer form.
\<close>

fun neutralize_form :: "node \<Rightarrow> node" where
  "neutralize_form (Tag n a cs) =
     (if n = ''form''
      then Tag n (AList.update ''method'' ''get'' (AList.update ''action'' ''#'' a))
             (map disable_controls (map neutralize_form cs))
      else Tag n a (map neutralize_form cs))"
| "neutralize_form (Str k s) = Str k s"

definition neutralize_forms :: "soup \<Rightarrow> soup" where
  "neutralize_forms soup = map neutralize_form soup"

definition remove_media_tags :: "soup \<Rightarrow> soup" where
  "remove_media_tags soup =
     foldl (\<lambda>s tag_name. decompose_all (named tag_name) s) soup
       [''video'', ''audio'', ''source'', ''track'']"

text \<open>
  The comment filter is \<^verbatim>\<open>lambda text: isinstance(text, type(soup.Comment))\<close>.
  \<^verbatim>\<open>soup.Comment\<close> is attribute access on the tree, that is
  \<^verbatim>\<open>soup.find("Comment")\<close>: \<^verbatim>\<open>None\<close> or a tag. Its type is then
  \<^verbatim>\<open>NoneType\<close> or \<^verbatim>\<open>Tag\<close>, and the filter asks whether the node is an
  instance of that.
\<close>

definition comment_filter :: "soup \<Rightarrow> node \<Rightarrow> bool" where
  "comment_filter soup text =
     (case find soup ''Comment'' of
        None \<Rightarrow> False
      | Some t \<Rightarrow> (case text of Tag n a cs \<Rightarrow> True | Str k s \<Rightarrow> False))"

definition remove_comments :: "soup \<Rightarrow> soup" where
  "remove_comments soup = concat (map (extract_strings (comment_filter soup)) soup)"

definition notice :: node where
  "notice =
     Tag ''div''
       [(''style'', ''font-family:monospace; font-size:12px; opacity:0.85; padding:6px; border-bottom:1px solid #ddd;'')]
       [Str NavigableString ''/* This page was sanitized: scripts, iframes, external links and auto-fetching resources removed */'']"

text \<open>
  \<^verbatim>\<open>if soup.body: soup.body.insert(0, notice) else: soup.insert(0, notice)\<close>. A tag
  is always true, so the test asks whether \<^verbatim>\<open>soup.find("body")\<close> found one, and
  \<open>insert_first_list\<close> returns \<open>None\<close> exactly then (lemma \<open>add_notice_branches\<close>).
\<close>

definition add_notice :: "soup \<Rightarrow> soup" where
  "add_notice soup =
     (case insert_first_list ''body'' notice soup of
        Some soup' \<Rightarrow> soup'
      | None \<Rightarrow> notice # soup)"

definition sanitize_html_strict :: "soup \<Rightarrow> soup" where
  "sanitize_html_strict soup =
     add_notice (remove_comments (remove_media_tags (neutralize_forms (strip_handlers
       (strip_src (neutralize_hrefs (strip_imgs (strip_srcset (remove_metas (remove_links
         (remove_dangerous_tags soup)))))))))))"

section \<open>The light sanitizer\<close>

text \<open>
  \<^verbatim>\<open>sanitize_html\<close> of \<^verbatim>\<open>app.py\<close>, the one the page calls. Both loops
  filter on the attribute they read (\<^verbatim>\<open>href=True\<close>, \<^verbatim>\<open>src=True\<close>), so
  \<^verbatim>\<open>tag["href"]\<close> and \<^verbatim>\<open>img["src"]\<close> never miss and the default of
  \<open>get\<close> is never used.
\<close>

definition rewrite_href :: "attrs \<Rightarrow> attrs" where
  "rewrite_href a =
     (let original = get a ''href'' '''' in
      if startswith original ''#'' then a
      else AList.update ''href'' (''https://noice://'' @ original) a)"

definition rewrite_hrefs :: "soup \<Rightarrow> soup" where
  "rewrite_hrefs soup =
     for_each_tag (\<lambda>n a. n = ''a'' \<and> has_attr a ''href'') (\<lambda>n. rewrite_href) soup"

definition falsy :: "string option \<Rightarrow> bool" where
  \<comment> \<open>\<^verbatim>\<open>not x\<close> for \<^verbatim>\<open>x\<close> a string or \<^verbatim>\<open>None\<close>\<close>
  "falsy x = (case x of None \<Rightarrow> True | Some v \<Rightarrow> v = '''')"

definition rewrite_img :: "attrs \<Rightarrow> attrs" where
  "rewrite_img a =
     (let original = get a ''src'' '''';
          a1 = AList.update ''src'' (''https://noice://'' @ original) a
      in if falsy (map_of a1 ''alt'') then AList.update ''alt'' ''[image disabled]'' a1 else a1)"

definition rewrite_imgs :: "soup \<Rightarrow> soup" where
  "rewrite_imgs soup =
     for_each_tag (\<lambda>n a. n = ''img'' \<and> has_attr a ''src'') (\<lambda>n. rewrite_img) soup"

definition sanitize_html :: "soup \<Rightarrow> soup" where
  "sanitize_html soup = rewrite_imgs (rewrite_hrefs soup)"

section \<open>From text to text, and the page\<close>

text \<open>
  The two library calls around the tree, as parameters: \<open>parse\<close> is
  \<^verbatim>\<open>BeautifulSoup(html, "html.parser")\<close> and \<open>render\<close> is \<^verbatim>\<open>str(soup)\<close>.
  Either may raise; the loops between them cannot. What they raise is of class
  \<^verbatim>\<open>Exception\<close>; an interrupt of the process from outside is not part of the model.
\<close>

datatype exn = Exception string

type_synonym parser = "string \<Rightarrow> exn + soup"
type_synonym serializer = "soup \<Rightarrow> exn + string"

definition sanitize_text :: "(soup \<Rightarrow> soup) \<Rightarrow> parser \<Rightarrow> serializer \<Rightarrow> string \<Rightarrow> exn + string" where
  "sanitize_text sanitizer parse render html =
     (case parse html of
        Inl e \<Rightarrow> Inl e
      | Inr soup \<Rightarrow> render (sanitizer soup))"

text \<open>
  The last step of the page (\<^verbatim>\<open>if html:\<close> and below): what it shows, in order.
  \<open>html\<close> is \<open>None\<close> when the fetch failed. The sanitizer it calls is
  \<^verbatim>\<open>sanitize_html\<close>, and \<^verbatim>\<open>except Exception\<close> takes whatever that call raises.
\<close>

datatype shown =
    St_error string
  | St_success string
  | Components_html string nat bool

definition str_exn :: "exn \<Rightarrow> string" where
  "str_exn e = (case e of Exception msg \<Rightarrow> msg)"

definition render_page :: "parser \<Rightarrow> serializer \<Rightarrow> string option \<Rightarrow> exn + shown list" where
  "render_page parse render html =
     (case html of
        None \<Rightarrow> Inr []
      | Some h \<Rightarrow>
          if h = '''' then Inr []
          else
            (case sanitize_text sanitize_html parse render h of
               Inr sanitized \<Rightarrow>
                 Inr [St_success ''Rendering sanitized HTML below.'',
                      Components_html sanitized 800 True]
             | Inl e \<Rightarrow>
                 Inr [St_error (''Error while sanitizing HTML: '' @ str_exn e),
                      St_success ''Rendering sanitized HTML below.'',
                      Components_html ''<p>Unable to sanitize content.</p>'' 800 True]))"

section \<open>Predicates on trees\<close>

text \<open>
  \<open>all_tags Q\<close> says that \<open>Q\<close> holds of the name and the attributes of every tag of
  a subtree; it is \<open>\<forall>t\<in>set (tags x). Q (name t) (attrs t)\<close> in recursive form.
\<close>

fun all_tags :: "(string \<Rightarrow> attrs \<Rightarrow> bool) \<Rightarrow> node \<Rightarrow> bool" where
  "all_tags Q (Tag n a cs) = (Q n a \<and> list_all (all_tags Q) cs)"
| "all_tags Q (Str k s) = True"

definition all_soup :: "(string \<Rightarrow> attrs \<Rightarrow> bool) \<Rightarrow> soup \<Rightarrow> bool" where
  "all_soup Q soup = list_all (all_tags Q) soup"

text \<open>The twelve tag names that the strict sanitizer removes, in the order of its loops.\<close>

definition forbidden_tags :: "string list" where
  "forbidden_tags = [''script'', ''iframe'', ''object'', ''embed'', ''noscript'', ''base'',
     ''link'', ''meta'', ''video'', ''audio'', ''source'', ''track'']"

definition is_handler :: "string \<Rightarrow> bool" where
  "is_handler k = startswith (lower k) ''on''"

definition no_handlers :: "attrs \<Rightarrow> bool" where
  "no_handlers a = list_all (\<lambda>k. \<not> is_handler k) (map fst a)"

definition href_neutral :: "attrs \<Rightarrow> bool" where
  "href_neutral a = (case map_of a ''href'' of None \<Rightarrow> True | Some v \<Rightarrow> href_kept v \<or> v = ''#'')"

text \<open>What the strict sanitizer leaves of a tag: the invariant of its output.\<close>

definition clean :: "string \<Rightarrow> attrs \<Rightarrow> bool" where
  "clean n a = (n \<notin> set forbidden_tags \<and> \<not> has_attr a ''srcset'' \<and> \<not> has_attr a ''src''
     \<and> href_neutral a \<and> no_handlers a)"



text \<open>
  The tree with the three attributes that the light sanitizer may write taken out:
  \<^verbatim>\<open>href\<close> of an \<^verbatim>\<open>a\<close> tag, \<^verbatim>\<open>src\<close> and \<^verbatim>\<open>alt\<close> of an \<^verbatim>\<open>img\<close> tag.
  Everything else stays, in its order.
\<close>

fun untouched :: "node \<Rightarrow> node" where
  "untouched (Tag n a cs) =
     Tag n (if n = ''a'' then AList.delete ''href'' a
            else if n = ''img'' then AList.delete ''src'' (AList.delete ''alt'' a)
            else a)
       (map untouched cs)"
| "untouched (Str k s) = Str k s"

text \<open>Both loops of the light sanitizer, on one tag.\<close>

definition light_attrs :: "string \<Rightarrow> attrs \<Rightarrow> attrs" where
  "light_attrs n a =
     (if n = ''a'' \<and> has_attr a ''href'' then rewrite_href a
      else if n = ''img'' \<and> has_attr a ''src'' then rewrite_img a
      else a)"

section \<open>Auxiliary lemmas\<close>

subsection \<open>An invariant through each operation on the tree\<close>

lemma all_tags_iff: "all_tags Q x \<longleftrightarrow> (\<forall>t\<in>set (tags x). Q (name t) (attrs t))"
  by (induction x) (auto simp: list_all_iff)

lemma all_soup_iff: "all_soup Q soup \<longleftrightarrow> (\<forall>t\<in>set (find_all soup). Q (name t) (attrs t))"
  by (auto simp: all_soup_def find_all_def list_all_iff all_tags_iff)

lemma all_tags_mono: "all_tags Q x \<Longrightarrow> (\<And>n a. Q n a \<Longrightarrow> R n a) \<Longrightarrow> all_tags R x"
  by (induction x) (auto simp: list_all_iff)

lemma all_soup_mono: "all_soup Q s \<Longrightarrow> (\<And>n a. Q n a \<Longrightarrow> R n a) \<Longrightarrow> all_soup R s"
  unfolding all_soup_def list_all_iff using all_tags_mono by blast

lemma all_tags_update:
  "all_tags Q x \<Longrightarrow> (\<And>n a. Q n a \<Longrightarrow> R n (if P n a then f n a else a)) \<Longrightarrow> all_tags R (update_tags P f x)"
  by (induction x) (auto simp: list_all_iff)

lemma all_soup_for_each:
  "all_soup Q s \<Longrightarrow> (\<And>n a. Q n a \<Longrightarrow> R n (if P n a then f n a else a)) \<Longrightarrow> all_soup R (for_each_tag P f s)"
  unfolding all_soup_def for_each_tag_def list_all_iff using all_tags_update by auto

lemma all_tags_decompose:
  "all_tags Q x \<Longrightarrow> list_all (all_tags (\<lambda>n a. Q n a \<and> \<not> P n a)) (decompose_tags P x)"
  by (induction x) (auto simp: list_all_iff)

lemma all_soup_decompose:
  "all_soup Q s \<Longrightarrow> all_soup (\<lambda>n a. Q n a \<and> \<not> P n a) (decompose_all P s)"
  unfolding all_soup_def decompose_all_def using all_tags_decompose by (auto simp: list_all_iff) 

lemma all_tags_extract:
  "all_tags Q x \<Longrightarrow> list_all (all_tags Q) (extract_strings P x)"
  by (induction x) (auto simp: list_all_iff)

lemma all_soup_remove_comments:
  "all_soup Q s \<Longrightarrow> all_soup Q (remove_comments s)"
  unfolding all_soup_def remove_comments_def using all_tags_extract by (auto simp: list_all_iff)

lemma all_tags_insert_first:
  "all_tags Q y \<Longrightarrow> (all_tags Q x \<longrightarrow> (\<forall>x'. insert_first n y x = Some x' \<longrightarrow> all_tags Q x'))"
  "all_tags Q y \<Longrightarrow> (list_all (all_tags Q) xs \<longrightarrow> (\<forall>xs'. insert_first_list n y xs = Some xs' \<longrightarrow> list_all (all_tags Q) xs'))"
  by (induction n y x and n y xs rule: insert_first_insert_first_list.induct)
     (auto split: option.splits if_splits)

lemma all_soup_add_notice:
  "all_soup Q s \<Longrightarrow> all_tags Q notice \<Longrightarrow> all_soup Q (add_notice s)"
  unfolding all_soup_def add_notice_def using all_tags_insert_first(2)[of Q notice s "''body''"]
  by (auto split: option.splits)

lemma all_tags_disable:
 "all_tags Q x \<Longrightarrow> (\<And>n a. Q n a \<Longrightarrow> Q n (AList.update ''disabled'' ''disabled'' a)) \<Longrightarrow> all_tags Q (disable_controls x)"
  unfolding disable_controls_def
  by (rule all_tags_update[where Q = Q]) (auto simp: disable_control_def Let_def)

lemma all_tags_neutralize_form:
  "all_tags Q x \<Longrightarrow> (\<And>n a. Q n a \<Longrightarrow> Q n (AList.update ''disabled'' ''disabled'' a))
   \<Longrightarrow> (\<And>a. Q ''form'' a \<Longrightarrow> Q ''form'' (AList.update ''method'' ''get'' (AList.update ''action'' ''#'' a)))
   \<Longrightarrow> all_tags Q (neutralize_form x)"
  by (induction x) (auto simp: list_all_iff intro: all_tags_disable)

subsection \<open>Attribute dictionaries\<close>

lemma delete_filter: "AList.delete k a = filter (\<lambda>p. fst p \<noteq> k) a"
  by (induction a) auto

lemma foldl_delete:
  "foldl (\<lambda>b k. if Q k then AList.delete k b else b) a ks
     = filter (\<lambda>p. \<not> (Q (fst p) \<and> fst p \<in> set ks)) a"
proof (induction ks arbitrary: a)
  case Nil
  then show ?case by simp
next
  case (Cons k ks)
  show ?case
  proof (cases "Q k")
    case True
    then show ?thesis
      by (simp add: Cons.IH delete_filter) (rule filter_cong, auto)
  next
    case False
    then show ?thesis
      by (simp add: Cons.IH) (rule filter_cong, auto)
  qed
qed

lemma strip_handler_attrs_filter:
  "strip_handler_attrs a = filter (\<lambda>p. \<not> is_handler (fst p)) a"
  unfolding strip_handler_attrs_def is_handler_def foldl_delete
  by (rule filter_cong) auto

lemma map_of_filter_key:
  "map_of (filter (\<lambda>p. R (fst p)) a) k = (if R k then map_of a k else None)"
  by (induction a) auto

lemma has_attr_delete: "has_attr (AList.delete k a) j \<longleftrightarrow> j \<noteq> k \<and> has_attr a j"
  by (auto simp: has_attr_def AList.delete_conv')

lemma has_attr_update: "has_attr (AList.update k v a) j \<longleftrightarrow> j = k \<or> has_attr a j"
  by (auto simp: has_attr_def AList.update_conv')

lemma has_attr_filter: "has_attr (filter (\<lambda>p. R (fst p)) a) j \<longleftrightarrow> R j \<and> has_attr a j"
  by (auto simp: has_attr_def map_of_filter_key)


subsection \<open>The loops of the strict sanitizer, one by one\<close>

lemma all_soup_foldl_decompose:
  "all_soup Q s \<Longrightarrow>
   all_soup (\<lambda>n a. Q n a \<and> n \<notin> set ms) (foldl (\<lambda>s m. decompose_all (named m) s) s ms)"
proof (induction ms arbitrary: s Q)
  case Nil
  then show ?case by simp
next
  case (Cons m ms)
  have "all_soup (\<lambda>n a. Q n a \<and> \<not> named m n a) (decompose_all (named m) s)"
    using Cons.prems by (rule all_soup_decompose)
  from Cons.IH[OF this] show ?case
    by (simp add: named_def conj_assoc)
qed

lemma stage_dangerous:
  "all_soup Q s \<Longrightarrow>
   all_soup (\<lambda>n a. Q n a \<and> n \<notin> set [''script'', ''iframe'', ''object'', ''embed'', ''noscript'', ''base''])
     (remove_dangerous_tags s)"
  unfolding remove_dangerous_tags_def by (rule all_soup_foldl_decompose)

lemma stage_links:
  "all_soup Q s \<Longrightarrow> all_soup (\<lambda>n a. Q n a \<and> n \<noteq> ''link'') (remove_links s)"
  unfolding remove_links_def
  by (drule all_soup_decompose[where P = "named ''link''"]) (simp add: named_def)

lemma stage_metas:
  "all_soup Q s \<Longrightarrow> all_soup (\<lambda>n a. Q n a \<and> n \<noteq> ''meta'') (remove_metas s)"
  unfolding remove_metas_def
  by (drule all_soup_decompose[where P = "\<lambda>n a. n = ''meta'' \<and> meta_decomposed a"])
     (simp add: meta_decomposed_def)

lemma stage_media:
  "all_soup Q s \<Longrightarrow>
   all_soup (\<lambda>n a. Q n a \<and> n \<notin> set [''video'', ''audio'', ''source'', ''track''])
     (remove_media_tags s)"
  unfolding remove_media_tags_def by (rule all_soup_foldl_decompose)

lemma stage_srcset:
  "all_soup Q s \<Longrightarrow> (\<And>n a k. Q n a \<Longrightarrow> Q n (AList.delete k a)) \<Longrightarrow>
   all_soup (\<lambda>n a. Q n a \<and> \<not> has_attr a ''srcset'') (strip_srcset s)"
  unfolding strip_srcset_def
  by (erule all_soup_for_each) (simp add: has_attr_delete)

lemma filter_as_deletes:
  "(\<And>k. Q (AList.delete k a)) \<Longrightarrow> (\<And>b k. Q b \<Longrightarrow> Q (AList.delete k b)) \<Longrightarrow> Q a \<Longrightarrow>
   Q (foldl (\<lambda>b k. if R k then AList.delete k b else b) a ks)"
  by (induction ks arbitrary: a) auto

lemma stage_imgs:
  assumes "all_soup Q s" and del: "\<And>n a k. Q n a \<Longrightarrow> Q n (AList.delete k a)"
  shows "all_soup Q (strip_imgs s)"
  unfolding strip_imgs_def
proof (rule all_soup_for_each[OF assms(1)])
  fix n a assume q: "Q n a"
  have "Q n (strip_img_attrs a)"
    unfolding strip_img_attrs_def Let_def
    by (rule filter_as_deletes[where Q = "Q n"]) (auto intro: del q)
  then show "Q n (if named ''img'' n a then strip_img_attrs a else a)"
    using q by simp
qed

lemma stage_hrefs:
  "all_soup Q s \<Longrightarrow> (\<And>n a. Q n a \<Longrightarrow> has_attr a ''href'' \<Longrightarrow> Q n (AList.update ''href'' ''#'' a)) \<Longrightarrow>
   all_soup (\<lambda>n a. Q n a \<and> href_neutral a) (neutralize_hrefs s)"
  unfolding neutralize_hrefs_def
  by (erule all_soup_for_each)
     (auto simp: neutralize_href_def Let_def href_neutral_def get_def has_attr_def AList.update_conv'
           split: option.splits)

lemma stage_src:
  "all_soup Q s \<Longrightarrow> (\<And>n a k. Q n a \<Longrightarrow> Q n (AList.delete k a)) \<Longrightarrow>
   all_soup (\<lambda>n a. Q n a \<and> \<not> has_attr a ''src'') (strip_src s)"
  unfolding strip_src_def
  by (erule all_soup_for_each) (simp add: has_attr_delete)

lemma stage_handlers:
  assumes "all_soup Q s" and del: "\<And>n a k. Q n a \<Longrightarrow> Q n (AList.delete k a)"
  shows "all_soup (\<lambda>n a. Q n a \<and> no_handlers a) (strip_handlers s)"
  unfolding strip_handlers_def
proof (rule all_soup_for_each[OF assms(1)])
  fix n a assume q: "Q n a"
  have "Q n (strip_handler_attrs a)"
    unfolding strip_handler_attrs_def
    by (rule filter_as_deletes[where Q = "Q n"]) (auto intro: del q)
  moreover have "no_handlers (strip_handler_attrs a)"
    by (auto simp: strip_handler_attrs_filter no_handlers_def list_all_iff)
  ultimately show "Q n (if True then strip_handler_attrs a else a) \<and>
      no_handlers (if True then strip_handler_attrs a else a)"
    by simp
qed

lemma stage_forms:
  "all_soup Q s \<Longrightarrow> (\<And>n a. Q n a \<Longrightarrow> Q n (AList.update ''disabled'' ''disabled'' a))
   \<Longrightarrow> (\<And>a. Q ''form'' a \<Longrightarrow> Q ''form'' (AList.update ''method'' ''get'' (AList.update ''action'' ''#'' a)))
   \<Longrightarrow> all_soup Q (neutralize_forms s)"
  unfolding all_soup_def neutralize_forms_def list_all_iff
  using all_tags_neutralize_form by auto

subsection \<open>The output of the strict sanitizer is clean\<close>

lemma not_handler_literals:
  "\<not> is_handler ''disabled''" "\<not> is_handler ''action''" "\<not> is_handler ''method''"
  "\<not> is_handler ''style''" "\<not> is_handler ''href''"
  by (simp_all add: is_handler_def startswith_def lower_def lower_char_def)

lemma no_handlers_update:
  "no_handlers a \<Longrightarrow> \<not> is_handler k \<Longrightarrow> no_handlers (AList.update k v a)"
  by (auto simp: no_handlers_def list_all_iff AList.update_keys)

lemma no_handlers_delete: "no_handlers a \<Longrightarrow> no_handlers (AList.delete k a)"
  by (auto simp: no_handlers_def list_all_iff delete_filter)

lemma href_neutral_delete: "href_neutral a \<Longrightarrow> href_neutral (AList.delete k a)"
  by (auto simp: href_neutral_def AList.delete_conv' split: option.splits)

lemma href_neutral_update: "href_neutral a \<Longrightarrow> k \<noteq> ''href'' \<Longrightarrow> href_neutral (AList.update k v a)"
  by (auto simp: href_neutral_def AList.update_conv' split: option.splits)

lemma clean_notice: "all_tags clean notice"
  by (simp add: notice_def clean_def forbidden_tags_def has_attr_def href_neutral_def
        no_handlers_def not_handler_literals)

lemma strict_clean: "all_soup clean (sanitize_html_strict s)"
proof -
  have 0: "all_soup (\<lambda>n a. True) s"
    by (simp add: all_soup_iff)
  note 1 = stage_dangerous[OF 0]
  note 2 = stage_links[OF 1]
  note 3 = stage_metas[OF 2]
  note 4 = stage_srcset[OF 3, simplified]
  have 5: "all_soup (\<lambda>n a. (n \<notin> set [''script'', ''iframe'', ''object'', ''embed'', ''noscript'', ''base'']
             \<and> n \<noteq> ''link'' \<and> n \<noteq> ''meta'') \<and> \<not> has_attr a ''srcset'')
           (strip_imgs (strip_srcset (remove_metas (remove_links (remove_dangerous_tags s)))))"
    by (rule stage_imgs) (use 4 in \<open>auto simp: has_attr_delete elim: all_soup_mono\<close>)
  have 6: "all_soup (\<lambda>n a. ((n \<notin> set [''script'', ''iframe'', ''object'', ''embed'', ''noscript'', ''base'']
             \<and> n \<noteq> ''link'' \<and> n \<noteq> ''meta'') \<and> \<not> has_attr a ''srcset'') \<and> href_neutral a)
           (neutralize_hrefs (strip_imgs (strip_srcset (remove_metas (remove_links (remove_dangerous_tags s))))))"
    by (rule stage_hrefs[OF 5]) (auto simp: has_attr_update)
  have 7: "all_soup (\<lambda>n a. (((n \<notin> set [''script'', ''iframe'', ''object'', ''embed'', ''noscript'', ''base'']
             \<and> n \<noteq> ''link'' \<and> n \<noteq> ''meta'') \<and> \<not> has_attr a ''srcset'') \<and> href_neutral a)
             \<and> \<not> has_attr a ''src'')
           (strip_src (neutralize_hrefs (strip_imgs (strip_srcset (remove_metas (remove_links (remove_dangerous_tags s)))))))"
    by (rule stage_src[OF 6]) (auto simp: has_attr_delete href_neutral_delete)
  have 8: "all_soup (\<lambda>n a. ((((n \<notin> set [''script'', ''iframe'', ''object'', ''embed'', ''noscript'', ''base'']
             \<and> n \<noteq> ''link'' \<and> n \<noteq> ''meta'') \<and> \<not> has_attr a ''srcset'') \<and> href_neutral a)
             \<and> \<not> has_attr a ''src'') \<and> no_handlers a)
           (strip_handlers (strip_src (neutralize_hrefs (strip_imgs (strip_srcset (remove_metas (remove_links (remove_dangerous_tags s))))))))"
    by (rule stage_handlers[OF 7]) (auto simp: has_attr_delete href_neutral_delete)
  have 9: "all_soup (\<lambda>n a. ((((n \<notin> set [''script'', ''iframe'', ''object'', ''embed'', ''noscript'', ''base'']
             \<and> n \<noteq> ''link'' \<and> n \<noteq> ''meta'') \<and> \<not> has_attr a ''srcset'') \<and> href_neutral a)
             \<and> \<not> has_attr a ''src'') \<and> no_handlers a)
           (neutralize_forms (strip_handlers (strip_src (neutralize_hrefs (strip_imgs (strip_srcset (remove_metas (remove_links (remove_dangerous_tags s)))))))))"
    by (rule stage_forms[OF 8])
       (auto simp: has_attr_update href_neutral_update no_handlers_update not_handler_literals)
  note 10 = stage_media[OF 9]
  note 11 = all_soup_remove_comments[OF 10]
  have 12: "all_soup clean (remove_comments (remove_media_tags (neutralize_forms (strip_handlers (strip_src (neutralize_hrefs (strip_imgs (strip_srcset (remove_metas (remove_links (remove_dangerous_tags s)))))))))))"
    by (rule all_soup_mono[OF 11]) (simp add: clean_def forbidden_tags_def)
  show ?thesis
    unfolding sanitize_html_strict_def
    by (rule all_soup_add_notice[OF 12 clean_notice])
qed

subsection \<open>The light sanitizer, tag by tag\<close>

lemma tags_update_tags: "tags (update_tags P f x) = map (update_tags P f) (tags x)"
  by (induction x) (auto simp: map_concat intro!: arg_cong[where f = concat])

lemma find_all_for_each: "find_all (for_each_tag P f s) = map (update_tags P f) (find_all s)"
  by (simp add: find_all_def for_each_tag_def map_concat tags_update_tags comp_def)

lemma tags_are_tags: "t \<in> set (tags x) \<Longrightarrow> \<exists>n a cs. t = Tag n a cs"
  by (induction x) auto

lemma find_all_are_tags: "t \<in> set (find_all s) \<Longrightarrow> \<exists>n a cs. t = Tag n a cs"
  by (auto simp: find_all_def dest: tags_are_tags)

lemma find_all_sanitize_html:
  "find_all (sanitize_html s) =
     map (\<lambda>t. update_tags (\<lambda>n a. n = ''img'' \<and> has_attr a ''src'') (\<lambda>n. rewrite_img)
            (update_tags (\<lambda>n a. n = ''a'' \<and> has_attr a ''href'') (\<lambda>n. rewrite_href) t))
       (find_all s)"
  by (simp add: sanitize_html_def rewrite_imgs_def rewrite_hrefs_def find_all_for_each comp_def)

lemma length_find_all_sanitize_html: "length (find_all (sanitize_html s)) = length (find_all s)"
  by (simp add: find_all_sanitize_html)

lemma nth_find_all_sanitize_html:
  assumes "i < length (find_all s)"
  shows "name (find_all (sanitize_html s) ! i) = name (find_all s ! i)"
    and "attrs (find_all (sanitize_html s) ! i) = light_attrs (name (find_all s ! i)) (attrs (find_all s ! i))"
proof -
  from assms have "find_all s ! i \<in> set (find_all s)" by simp
  then obtain n a cs where t: "find_all s ! i = Tag n a cs"
    using find_all_are_tags by blast
  show "name (find_all (sanitize_html s) ! i) = name (find_all s ! i)"
    using assms by (simp add: find_all_sanitize_html t)
  show "attrs (find_all (sanitize_html s) ! i) = light_attrs (name (find_all s ! i)) (attrs (find_all s ! i))"
    using assms by (auto simp: find_all_sanitize_html t light_attrs_def)
qed

lemma untouched_light:
  "untouched (update_tags (\<lambda>n a. n = ''img'' \<and> has_attr a ''src'') (\<lambda>n. rewrite_img)
            (update_tags (\<lambda>n a. n = ''a'' \<and> has_attr a ''href'') (\<lambda>n. rewrite_href) x)) = untouched x"
  by (induction x)
     (auto simp: rewrite_href_def rewrite_img_def Let_def AList.delete_update_same AList.delete_update)

lemma untouched_sanitize_html: "map untouched (sanitize_html s) = map untouched s"
  by (simp add: sanitize_html_def rewrite_imgs_def rewrite_hrefs_def for_each_tag_def untouched_light)

lemma light_attrs_other:
  "k \<noteq> ''href'' \<Longrightarrow> k \<noteq> ''src'' \<Longrightarrow> k \<noteq> ''alt'' \<Longrightarrow> map_of (light_attrs n a) k = map_of a k"
  by (auto simp: light_attrs_def rewrite_href_def rewrite_img_def Let_def AList.update_conv')

lemma light_attrs_frame:
  "n \<noteq> ''a'' \<Longrightarrow> n \<noteq> ''img'' \<Longrightarrow> light_attrs n a = a"
  "n = ''a'' \<Longrightarrow> k \<noteq> ''href'' \<Longrightarrow> map_of (light_attrs n a) k = map_of a k"
  by (auto simp: light_attrs_def rewrite_href_def rewrite_img_def Let_def AList.update_conv')

lemma light_attrs_href:
  "map_of a ''href'' = Some v \<Longrightarrow>
   map_of (light_attrs ''a'' a) ''href'' = Some (if startswith v ''#'' then v else ''https://noice://'' @ v)"
  by (auto simp: light_attrs_def rewrite_href_def Let_def AList.update_conv' get_def has_attr_def)


subsection \<open>Forms\<close>










lemma concat_map_single: "(\<And>x. x \<in> set xs \<Longrightarrow> g x = [x]) \<Longrightarrow> concat (map g xs) = xs"
  by (induction xs) auto

lemma extract_comment_filter: "extract_strings (comment_filter s) x = [x]"
proof (induction x)
  case (Tag n a cs)
  then show ?case by (simp add: concat_map_single)
next
  case (Str k t)
  then show ?case by (simp add: comment_filter_def split: option.splits)
qed

lemma remove_comments_id: "remove_comments s = s"
  unfolding remove_comments_def by (rule concat_map_single) (rule extract_comment_filter)



subsection \<open>Invariants that the strict sanitizer preserves\<close>














subsection \<open>The strict sanitizer on its own output\<close>












subsection \<open>The notice\<close>



lemma insert_first_has:
  "\<forall>x'. insert_first n y x = Some x' \<longrightarrow> set (tags y) \<subseteq> set (tags x')"
  "\<forall>xs'. insert_first_list n y xs = Some xs' \<longrightarrow> set (tags y) \<subseteq> set (find_all xs')"
proof (induction n y x and n y xs rule: insert_first_insert_first_list.induct)
  case (1 n x m a cs)
  show ?case
  proof (cases "m = n")
    case True
    then show ?thesis by auto
  next
    case False
    with 1 show ?thesis by (fastforce simp: find_all_def)
  qed
next
  case (4 n x c cs)
  show ?case
  proof (cases "insert_first n x c")
    case None
    with 4 show ?thesis by (fastforce simp: find_all_def)
  next
    case (Some c')
    with 4 show ?thesis by (fastforce simp: find_all_def)
  qed
qed auto

lemma notice_in_add_notice: "notice \<in> set (find_all (add_notice s))"
proof -
  have n: "notice \<in> set (tags notice)" by (simp add: notice_def)
  show ?thesis
  proof (cases "insert_first_list ''body'' notice s")
    case None
    then show ?thesis using n by (simp add: add_notice_def find_all_def)
  next
    case (Some s')
    with insert_first_has(2)[of "''body''" notice s] n show ?thesis
      by (auto simp: add_notice_def)
  qed
qed

lemma nth_find_all_for_each:
  assumes "i < length (find_all s)"
  shows "name (find_all (for_each_tag P f s) ! i) = name (find_all s ! i)"
    and "attrs (find_all (for_each_tag P f s) ! i) =
           (if P (name (find_all s ! i)) (attrs (find_all s ! i))
            then f (name (find_all s ! i)) (attrs (find_all s ! i))
            else attrs (find_all s ! i))"
proof -
  from assms have "find_all s ! i \<in> set (find_all s)" by simp
  then obtain n a cs where t: "find_all s ! i = Tag n a cs"
    using find_all_are_tags by blast
  show "name (find_all (for_each_tag P f s) ! i) = name (find_all s ! i)"
    using assms by (simp add: find_all_for_each t)
  show "attrs (find_all (for_each_tag P f s) ! i) =
           (if P (name (find_all s ! i)) (attrs (find_all s ! i))
            then f (name (find_all s ! i)) (attrs (find_all s ! i))
            else attrs (find_all s ! i))"
    using assms by (simp add: find_all_for_each t)
qed

lemma insert_first_None:
  "insert_first n y x = None \<longleftrightarrow> (\<forall>t\<in>set (tags x). name t \<noteq> n)"
  "insert_first_list n y xs = None \<longleftrightarrow> (\<forall>t\<in>set (find_all xs). name t \<noteq> n)"
proof (induction n y x and n y xs rule: insert_first_insert_first_list.induct)
  case (1 n x m a cs)
  then show ?case by (auto simp: find_all_def)
next
  case (4 n x c cs)
  then show ?case by (cases "insert_first n x c") (auto simp: find_all_def)
qed (auto simp: find_all_def)

lemma add_notice_branches:
  "find soup ''body'' = None \<Longrightarrow> add_notice soup = notice # soup"
  "find soup ''body'' \<noteq> None \<Longrightarrow> insert_first_list ''body'' notice soup = Some (add_notice soup)"
proof -
  have e: "find soup ''body'' = None \<longleftrightarrow> insert_first_list ''body'' notice soup = None"
    by (auto simp: find_def find_None_iff insert_first_None(2))
  show "add_notice soup = notice # soup" if "find soup ''body'' = None"
    using that e by (simp add: add_notice_def)
  show "insert_first_list ''body'' notice soup = Some (add_notice soup)" if "find soup ''body'' \<noteq> None"
    using that e by (auto simp: add_notice_def)
qed

section \<open>The claims\<close>

text \<open>
  C1 (as amended). Whatever the parsed input, the tree returned by the strict sanitizer
  \<^verbatim>\<open>sanitize_html_\<close> holds no \<^verbatim>\<open>script\<close>, \<^verbatim>\<open>iframe\<close>, \<^verbatim>\<open>object\<close>,
  \<^verbatim>\<open>embed\<close>, \<^verbatim>\<open>noscript\<close>, \<^verbatim>\<open>base\<close>, \<^verbatim>\<open>link\<close>, \<^verbatim>\<open>meta\<close>,
  \<^verbatim>\<open>video\<close>, \<^verbatim>\<open>audio\<close>, \<^verbatim>\<open>source\<close> or \<^verbatim>\<open>track\<close> tag. The page does not
  call this sanitizer.
\<close>

theorem strict_output_has_no_forbidden_tag:
  "\<forall>t\<in>set (find_all (sanitize_html_strict soup)). name t \<notin> set forbidden_tags"
  using strict_clean[of soup] by (simp add: all_soup_iff clean_def)

theorem strict_output_has_no_forbidden_tag_witness:
  "Tag ''p'' [] [] \<in> set (find_all (sanitize_html_strict
       [Tag ''p'' [] [Tag ''script'' [] [Str NavigableString ''alert(1)'']], Tag ''meta'' [] []]))
   \<and> name (Tag ''p'' [] []) \<notin> set forbidden_tags"
proof -
  have "Tag ''p'' [] [] \<in> set (find_all (sanitize_html_strict
       [Tag ''p'' [] [Tag ''script'' [] [Str NavigableString ''alert(1)'']], Tag ''meta'' [] []]))"
    by code_simp
  with strict_output_has_no_forbidden_tag
    [of "[Tag ''p'' [] [Tag ''script'' [] [Str NavigableString ''alert(1)'']], Tag ''meta'' [] []]"]
  show ?thesis by blast
qed

text \<open>
  C1 as stated fails: the sanitizer the page calls, \<^verbatim>\<open>sanitize_html\<close>, returns a
  \<^verbatim>\<open>script\<close> tag as it found it.
\<close>

theorem light_keeps_script_counterexample:
  "find_all (sanitize_html [Tag ''script'' [] [Str NavigableString ''alert(1)'']])
     = [Tag ''script'' [] [Str NavigableString ''alert(1)'']]
   \<and> ''script'' \<in> set forbidden_tags"
  by code_simp

text \<open>
  C2 (as amended). Whatever the parsed input, no tag of the tree returned by the strict
  sanitizer \<^verbatim>\<open>sanitize_html_\<close> has an attribute whose name, lowered, starts with
  \<^verbatim>\<open>on\<close>.
\<close>

theorem strict_output_has_no_handler:
  "\<forall>t\<in>set (find_all (sanitize_html_strict soup)).
     \<forall>k\<in>set (map fst (attrs t)). \<not> startswith (lower k) ''on''"
  using strict_clean[of soup]
  by (simp add: all_soup_iff clean_def no_handlers_def list_all_iff is_handler_def)

theorem strict_output_has_no_handler_witness:
  "Tag ''div'' [(''id'', ''x'')] [Str NavigableString ''hi'']
     \<in> set (find_all (sanitize_html_strict
          [Tag ''div'' [(''onClick'', ''steal()''), (''id'', ''x'')] [Str NavigableString ''hi'']]))
   \<and> ''id'' \<in> set (map fst (attrs (Tag ''div'' [(''id'', ''x'')] [Str NavigableString ''hi''])))
   \<and> \<not> startswith (lower ''id'') ''on''"
proof -
  have "Tag ''div'' [(''id'', ''x'')] [Str NavigableString ''hi'']
     \<in> set (find_all (sanitize_html_strict
          [Tag ''div'' [(''onClick'', ''steal()''), (''id'', ''x'')] [Str NavigableString ''hi'']]))"
    by code_simp
  with strict_output_has_no_handler
    [of "[Tag ''div'' [(''onClick'', ''steal()''), (''id'', ''x'')] [Str NavigableString ''hi'']]"]
  show ?thesis by fastforce
qed

text \<open>
  C2 as stated fails for the sanitizer the page calls: \<^verbatim>\<open>sanitize_html\<close> returns
  \<^verbatim>\<open><div onclick="steal()">hi</div>\<close> with its handler.
\<close>

theorem light_keeps_handler_counterexample:
  "sanitize_html [Tag ''div'' [(''onclick'', ''steal()'')] [Str NavigableString ''hi'']]
     = [Tag ''div'' [(''onclick'', ''steal()'')] [Str NavigableString ''hi'']]
   \<and> startswith (lower ''onclick'') ''on''"
  by code_simp









text \<open>
  C6 as stated fails for the sanitizer the page calls: on the empty document, the parse
  of the empty text, \<^verbatim>\<open>sanitize_html\<close> returns the empty document, without a notice.
\<close>

theorem light_empty_counterexample:
  "sanitize_html [] = [] \<and> notice \<notin> set (find_all (sanitize_html []))"
  by code_simp

text \<open>
  C6 (as amended). The strict sanitizer \<^verbatim>\<open>sanitize_html_\<close> is total on parsed trees,
  and the tree it returns is never empty: it holds the notice, and for the empty document
  it is the notice alone. The text it returns is the serialization of that tree, whenever
  the parser accepts the input.
\<close>

theorem strict_returns_notice:
  "sanitize_html_strict soup \<noteq> [] \<and>
   notice \<in> set (find_all (sanitize_html_strict soup)) \<and>
   sanitize_html_strict [] = [notice] \<and>
   (parse html = Inr soup \<longrightarrow>
      sanitize_text sanitize_html_strict parse render html = render (sanitize_html_strict soup))"
proof (intro conjI impI)
  show n: "notice \<in> set (find_all (sanitize_html_strict soup))"
    unfolding sanitize_html_strict_def by (rule notice_in_add_notice)
  then show "sanitize_html_strict soup \<noteq> []"
    by (auto simp: find_all_def)
  show "sanitize_html_strict [] = [notice]"
    by (simp add: sanitize_html_strict_def remove_dangerous_tags_def remove_links_def
          remove_metas_def strip_srcset_def strip_imgs_def neutralize_hrefs_def strip_src_def
          strip_handlers_def neutralize_forms_def remove_media_tags_def remove_comments_id
          decompose_all_def for_each_tag_def add_notice_def)
  show "sanitize_text sanitize_html_strict parse render html = render (sanitize_html_strict soup)"
    if "parse html = Inr soup"
    using that by (simp add: sanitize_text_def)
qed

theorem strict_returns_notice_witness:
  "(\<lambda>h. Inr [Str NavigableString h]) ''hello'' = (Inr [Str NavigableString ''hello''] :: exn + soup)
   \<and> sanitize_text sanitize_html_strict (\<lambda>h. Inr [Str NavigableString h])
        (\<lambda>s. Inr (if s = [] then '''' else ''<>'')) ''hello'' = Inr ''<>''"
proof -
  have 1: "(\<lambda>h. Inr [Str NavigableString h]) ''hello'' = (Inr [Str NavigableString ''hello''] :: exn + soup)"
    by simp
  from strict_returns_notice[of "[Str NavigableString ''hello'']" "\<lambda>h. Inr [Str NavigableString h]"
      "''hello''" "\<lambda>s. Inr (if s = [] then '''' else ''<>'')"] 1
  show ?thesis by simp
qed




text \<open>
  C8. Whatever the call of the sanitizer raises, the page does not raise: it reports the
  error, and hands the renderer the one-paragraph document
  \<^verbatim>\<open><p>Unable to sanitize content.</p>\<close> in place of the sanitized text.
\<close>

theorem sanitize_failure_is_caught:
  "(\<exists>shown. render_page parse render html = Inr shown) \<and>
   (\<forall>h e. html = Some h \<and> h \<noteq> '''' \<and> sanitize_text sanitize_html parse render h = Inl e \<longrightarrow>
      render_page parse render html =
        Inr [St_error (''Error while sanitizing HTML: '' @ str_exn e),
             St_success ''Rendering sanitized HTML below.'',
             Components_html ''<p>Unable to sanitize content.</p>'' 800 True])"
  by (auto simp: render_page_def split: option.splits sum.splits)

theorem sanitize_failure_is_caught_witness:
  "Some ''<p>x</p>'' = Some ''<p>x</p>'' \<and> ''<p>x</p>'' \<noteq> ''''
   \<and> sanitize_text sanitize_html (\<lambda>h. Inl (Exception ''parser rejected the markup''))
        (\<lambda>s. Inr ''unused'') ''<p>x</p>'' = Inl (Exception ''parser rejected the markup'')
   \<and> render_page (\<lambda>h. Inl (Exception ''parser rejected the markup'')) (\<lambda>s. Inr ''unused'')
        (Some ''<p>x</p>'') =
        Inr [St_error (''Error while sanitizing HTML: '' @ str_exn (Exception ''parser rejected the markup'')),
             St_success ''Rendering sanitized HTML below.'',
             Components_html ''<p>Unable to sanitize content.</p>'' 800 True]"
proof -
  have 1: "sanitize_text sanitize_html (\<lambda>h. Inl (Exception ''parser rejected the markup''))
        (\<lambda>s. Inr ''unused'') ''<p>x</p>'' = Inl (Exception ''parser rejected the markup'')"
    by (simp add: sanitize_text_def)
  have 2: "''<p>x</p>'' \<noteq> ''''" by simp
  from sanitize_failure_is_caught[of "\<lambda>h. Inl (Exception ''parser rejected the markup'')"
      "\<lambda>s. Inr ''unused''" "Some ''<p>x</p>''"] 1 2
  have "render_page (\<lambda>h. Inl (Exception ''parser rejected the markup'')) (\<lambda>s. Inr ''unused'')
        (Some ''<p>x</p>'') =
        Inr [St_error (''Error while sanitizing HTML: '' @ str_exn (Exception ''parser rejected the markup'')),
             St_success ''Rendering sanitized HTML below.'',
             Components_html ''<p>Unable to sanitize content.</p>'' 800 True]"
    by blast
  with 1 2 show ?thesis by blast
qed

text \<open>
  C9. The sanitizer the page calls writes nothing but the \<^verbatim>\<open>href\<close> of
  \<^verbatim>\<open>a\<close> tags and the \<^verbatim>\<open>src\<close> and \<^verbatim>\<open>alt\<close> of \<^verbatim>\<open>img\<close> tags: with
  these three attributes taken out of both, the tree it returns is the tree it was given.
  Tag by tag, in document order, names stay, a tag that is neither \<^verbatim>\<open>a\<close> nor
  \<^verbatim>\<open>img\<close> keeps its attribute list (so every \<^verbatim>\<open>script\<close> and \<^verbatim>\<open>iframe\<close>
  does), and every attribute but the three keeps its value (so every handler does).
\<close>

theorem light_writes_href_src_alt_only:
  "map untouched (sanitize_html soup) = map untouched soup \<and>
   length (find_all (sanitize_html soup)) = length (find_all soup) \<and>
   (\<forall>i<length (find_all soup).
      name (find_all (sanitize_html soup) ! i) = name (find_all soup ! i) \<and>
      (name (find_all soup ! i) \<noteq> ''a'' \<and> name (find_all soup ! i) \<noteq> ''img'' \<longrightarrow>
         attrs (find_all (sanitize_html soup) ! i) = attrs (find_all soup ! i)) \<and>
      (\<forall>k. k \<noteq> ''href'' \<and> k \<noteq> ''src'' \<and> k \<noteq> ''alt'' \<longrightarrow>
         map_of (attrs (find_all (sanitize_html soup) ! i)) k = map_of (attrs (find_all soup ! i)) k) \<and>
      (\<forall>k. name (find_all soup ! i) = ''a'' \<and> k \<noteq> ''href'' \<longrightarrow>
         map_of (attrs (find_all (sanitize_html soup) ! i)) k = map_of (attrs (find_all soup ! i)) k))"
  by (simp add: untouched_sanitize_html length_find_all_sanitize_html nth_find_all_sanitize_html
        light_attrs_other light_attrs_frame)

theorem light_writes_href_src_alt_only_witness:
  "1 < length (find_all [Tag ''script'' [(''src'', ''http://evil.test/x.js'')] [],
                         Tag ''div'' [(''onclick'', ''steal()'')] [Tag ''iframe'' [(''src'', ''y'')] []]])
   \<and> name (find_all [Tag ''script'' [(''src'', ''http://evil.test/x.js'')] [],
                     Tag ''div'' [(''onclick'', ''steal()'')] [Tag ''iframe'' [(''src'', ''y'')] []]] ! 1) \<noteq> ''a''
   \<and> name (find_all [Tag ''script'' [(''src'', ''http://evil.test/x.js'')] [],
                     Tag ''div'' [(''onclick'', ''steal()'')] [Tag ''iframe'' [(''src'', ''y'')] []]] ! 1) \<noteq> ''img''
   \<and> attrs (find_all (sanitize_html
         [Tag ''script'' [(''src'', ''http://evil.test/x.js'')] [],
          Tag ''div'' [(''onclick'', ''steal()'')] [Tag ''iframe'' [(''src'', ''y'')] []]]) ! 1)
       = [(''onclick'', ''steal()'')]"
proof -
  let ?s = "[Tag ''script'' [(''src'', ''http://evil.test/x.js'')] [],
             Tag ''div'' [(''onclick'', ''steal()'')] [Tag ''iframe'' [(''src'', ''y'')] []]]"
  have 1: "1 < length (find_all ?s)" by (simp add: find_all_def)
  have 2: "name (find_all ?s ! 1) \<noteq> ''a''" "name (find_all ?s ! 1) \<noteq> ''img''"
    by (simp_all add: find_all_def)
  have 3: "attrs (find_all ?s ! 1) = [(''onclick'', ''steal()'')]" by (simp add: find_all_def)
  from light_writes_href_src_alt_only[of ?s] 1 2
  have "attrs (find_all (sanitize_html ?s) ! 1) = attrs (find_all ?s ! 1)" by blast
  with 1 2 3 show ?thesis by simp
qed

text \<open>
  C10. In the light sanitizer the \<^verbatim>\<open>href\<close> of an \<^verbatim>\<open>a\<close> tag stays only when it
  starts with \<^verbatim>\<open>#\<close>; any other value gets the prefix \<^verbatim>\<open>https://noice://\<close>. A
  value that starts with \<^verbatim>\<open>mailto:\<close> or \<^verbatim>\<open>javascript:\<close> is prefixed too, while the
  \<^verbatim>\<open>href\<close> loop of the strict sanitizer leaves it as it is.
\<close>

theorem light_exempts_hash_only:
  "\<forall>i<length (find_all soup). \<forall>v.
     name (find_all soup ! i) = ''a'' \<and> map_of (attrs (find_all soup ! i)) ''href'' = Some v \<longrightarrow>
       map_of (attrs (find_all (sanitize_html soup) ! i)) ''href''
         = Some (if startswith v ''#'' then v else ''https://noice://'' @ v) \<and>
       (startswith v ''mailto:'' \<or> startswith v ''javascript:'' \<longrightarrow>
          map_of (attrs (find_all (sanitize_html soup) ! i)) ''href'' = Some (''https://noice://'' @ v) \<and>
          map_of (attrs (find_all (neutralize_hrefs soup) ! i)) ''href'' = Some v)"
proof (intro allI impI, elim conjE, intro conjI impI)
  fix i v
  assume i: "i < length (find_all soup)" and n: "name (find_all soup ! i) = ''a''"
    and v: "map_of (attrs (find_all soup ! i)) ''href'' = Some v"
  show l: "map_of (attrs (find_all (sanitize_html soup) ! i)) ''href''
         = Some (if startswith v ''#'' then v else ''https://noice://'' @ v)"
    using nth_find_all_sanitize_html(2)[OF i] n light_attrs_href[OF v] by simp
  assume m: "startswith v ''mailto:'' \<or> startswith v ''javascript:''"
  then have "\<not> startswith v ''#''"
    by (auto simp: startswith_def prefix_def)
  with l show "map_of (attrs (find_all (sanitize_html soup) ! i)) ''href'' = Some (''https://noice://'' @ v)"
    by simp
  have "attrs (find_all (neutralize_hrefs soup) ! i) = neutralize_href (attrs (find_all soup ! i))"
    unfolding neutralize_hrefs_def using v
    by (simp add: nth_find_all_for_each(2)[OF i] has_attr_def)
  with m v show "map_of (attrs (find_all (neutralize_hrefs soup) ! i)) ''href'' = Some v"
    by (simp add: neutralize_href_def get_def href_kept_def)
qed

theorem light_exempts_hash_only_witness:
  "0 < length (find_all [Tag ''a'' [(''href'', ''javascript:steal()'')] []])
   \<and> name (find_all [Tag ''a'' [(''href'', ''javascript:steal()'')] []] ! 0) = ''a''
   \<and> map_of (attrs (find_all [Tag ''a'' [(''href'', ''javascript:steal()'')] []] ! 0)) ''href''
        = Some ''javascript:steal()''
   \<and> (startswith ''javascript:steal()'' ''mailto:'' \<or> startswith ''javascript:steal()'' ''javascript:'')
   \<and> map_of (attrs (find_all (sanitize_html [Tag ''a'' [(''href'', ''javascript:steal()'')] []]) ! 0)) ''href''
        = Some (''https://noice://'' @ ''javascript:steal()'')
   \<and> map_of (attrs (find_all (neutralize_hrefs [Tag ''a'' [(''href'', ''javascript:steal()'')] []]) ! 0)) ''href''
        = Some ''javascript:steal()''"
proof -
  let ?s = "[Tag ''a'' [(''href'', ''javascript:steal()'')] []]"
  have 1: "0 < length (find_all ?s)" by (simp add: find_all_def)
  have 2: "name (find_all ?s ! 0) = ''a''" by (simp add: find_all_def)
  have 3: "map_of (attrs (find_all ?s ! 0)) ''href'' = Some ''javascript:steal()''"
    by (simp add: find_all_def)
  have 4: "startswith ''javascript:steal()'' ''mailto:'' \<or> startswith ''javascript:steal()'' ''javascript:''"
    by (simp add: startswith_def)
  from light_exempts_hash_only[of ?s] 1 2 3 4
  have "map_of (attrs (find_all (sanitize_html ?s) ! 0)) ''href'' = Some (''https://noice://'' @ ''javascript:steal()'')
      \<and> map_of (attrs (find_all (neutralize_hrefs ?s) ! 0)) ''href'' = Some ''javascript:steal()''"
    by blast
  with 1 2 3 4 show ?thesis by blast
qed

end
